theory Spec2Isabelle
  imports Complex_Main "HOL-Library.Word"
begin

section \<open>The infrared temperature logger: main.ino and calibrate.ino\<close>

text \<open>
  The firmware talks to three peripherals through third-party libraries: a DS3231
  real-time clock, an MLX90614 infrared thermometer and an SD card. What the libraries
  answer is an input of the model; every call the sketches make is an event of the
  trace, in program order. The board state the sketches change is the level of the
  indicator pin, the file \<open>datalog.csv\<close> on the medium and the global file handle
  \<open>datalog\<close>.
\<close>

subsection \<open>Peripherals and events\<close>

type_synonym byte = "8 word"

text \<open>The calls of the DS3231 library that the two sketches make.\<close>

datatype rtc_call =
    GetTemperature | GetYear | GetMonth | GetDate | GetHour | GetMinute | GetSecond
  | SetClockMode bool | SetYear byte | SetMonth byte | SetDate byte
  | SetHour byte | SetMinute byte | SetSecond byte

text \<open>The calls of the Adafruit MLX90614 library that the two sketches make.\<close>

datatype mlx_call =
    MlxBegin | ReadEmissivity | ReadAmbientTempC | ReadObjectTempC | WriteEmissivity real

text \<open>
  The calls of the SD library. \<open>SdOpen\<close> is always \<open>SD.open("datalog.csv", FILE_WRITE)\<close>:
  the file is created when it is absent and the position is set to its end.
\<close>

datatype sd_call = SdBegin | SdExists | SdOpen | SdPrintln string | SdClose

datatype event =
    PinMode nat
  | DigitalWrite nat bool
  | SerialBegin nat
  | WireBegin
  | Print string
  | Println string
  | Delay nat
  | Rtc rtc_call
  | Mlx mlx_call
  | Sd sd_call

text \<open>
  What the clock answers: the date and time registers as the getters return them, and
  the value of \<open>getTemperature()\<close> (-9999 when the clock does not answer on the bus).
\<close>

record ds3231 =
  year :: byte
  month :: byte
  date :: byte
  hour :: byte
  minute :: byte
  second :: byte
  temperature :: real

text \<open>
  What the thermometer answers: the result of \<open>begin()\<close>, and the text that
  \<open>Serial.println(double)\<close> and \<open>String(double)\<close> render for the emissivity and the
  two temperatures.
\<close>

record mlx90614 =
  begin_ok :: bool
  emissivity_text :: string
  ambient_text :: string
  object_text :: string

text \<open>
  The board: the level of pin D7, the lines of \<open>datalog.csv\<close> (\<open>None\<close> when the file
  does not exist), whether the handle \<open>datalog\<close> is an open file, and the trace.
\<close>

record world =
  led :: bool
  log_file :: "string list option"
  datalog :: bool
  trace :: "event list"

definition LED :: nat where
  "LED = 7"

definition CS :: nat where
  "CS = 10"

definition CSV_HEADER :: string where
  "CSV_HEADER = ''Time (PET),Object Temperature,Ambient Temperature''"

subsection \<open>Primitive operations\<close>

definition emit :: "event \<Rightarrow> world \<Rightarrow> world" where
  "emit e w = w\<lparr>trace := trace w @ [e]\<rparr>"

definition pinMode :: "nat \<Rightarrow> world \<Rightarrow> world" where
  "pinMode pin w = emit (PinMode pin) w"

definition digitalWrite :: "nat \<Rightarrow> bool \<Rightarrow> world \<Rightarrow> world" where
  "digitalWrite pin level w =
     emit (DigitalWrite pin level) (if pin = LED then w\<lparr>led := level\<rparr> else w)"

definition serial_print :: "string \<Rightarrow> world \<Rightarrow> world" where
  "serial_print s w = emit (Print s) w"

definition serial_println :: "string \<Rightarrow> world \<Rightarrow> world" where
  "serial_println s w = emit (Println s) w"

definition delay :: "nat \<Rightarrow> world \<Rightarrow> world" where
  "delay ms w = emit (Delay ms) w"

text \<open>
  \<open>SD.exists\<close>, \<open>SD.open(..., FILE_WRITE)\<close>, \<open>File::println\<close> and \<open>File::close\<close>.
  Whether an open succeeds is the library's answer \<open>ok\<close>. A successful open creates an
  absent file empty and keeps the lines of an existing one; a failed open leaves the
  medium alone and yields a handle that tests false. Printing to such a handle writes
  nothing, and closing it does nothing.
\<close>

definition sd_exists :: "world \<Rightarrow> bool \<times> world" where
  "sd_exists w = (log_file w \<noteq> None, emit (Sd SdExists) w)"

definition sd_open :: "bool \<Rightarrow> world \<Rightarrow> world" where
  "sd_open ok w =
     emit (Sd SdOpen)
       (if ok then w\<lparr>log_file := Some (case log_file w of None \<Rightarrow> [] | Some ls \<Rightarrow> ls), datalog := True\<rparr>
        else w\<lparr>datalog := False\<rparr>)"

definition file_println :: "string \<Rightarrow> world \<Rightarrow> world" where
  "file_println s w =
     emit (Sd (SdPrintln s))
       (if datalog w then w\<lparr>log_file := map_option (\<lambda>ls. ls @ [s]) (log_file w)\<rparr> else w)"

definition file_close :: "world \<Rightarrow> world" where
  "file_close w = emit (Sd SdClose) (w\<lparr>datalog := False\<rparr>)"

subsection \<open>Text of an unsigned byte\<close>

text \<open>\<open>String(unsigned char)\<close> renders the value in base 10 without padding.\<close>

definition digit :: "nat \<Rightarrow> char" where
  "digit d = ''0123456789'' ! d"

function utoa :: "nat \<Rightarrow> string" where
  "utoa n = (if n < 10 then [digit n] else utoa (n div 10) @ [digit (n mod 10)])"
  by pat_completeness auto
termination
  by (relation "measure id") auto

declare utoa.simps [simp del]

definition String_of_byte :: "byte \<Rightarrow> string" where
  "String_of_byte b = utoa (unat b)"

subsection \<open>print_time\<close>

definition rtc_get :: "rtc_call \<Rightarrow> (ds3231 \<Rightarrow> 'a) \<Rightarrow> ds3231 \<Rightarrow> world \<Rightarrow> 'a \<times> world" where
  "rtc_get c field rtc w = (field rtc, emit (Rtc c) w)"

definition print_time :: "ds3231 \<Rightarrow> world \<Rightarrow> string \<times> world" where
  "print_time rtc w0 =
     (let (y, w1) = rtc_get GetYear year rtc w0;
          d1 = ''20'' @ String_of_byte y;
          (m, w2) = rtc_get GetMonth month rtc w1;
          d2 = d1 @ ''-'' @ String_of_byte m;
          (d, w3) = rtc_get GetDate date rtc w2;
          d3 = d2 @ ''-'' @ String_of_byte d;
          d4 = d3 @ '' '';
          (h, w4) = rtc_get GetHour hour rtc w3;
          d5 = d4 @ String_of_byte h;
          (mi, w5) = rtc_get GetMinute minute rtc w4;
          d6 = d5 @ '':'' @ String_of_byte mi;
          (s, w6) = rtc_get GetSecond second rtc w5;
          d7 = d6 @ '':'' @ String_of_byte s
      in (d7, w6))"

subsection \<open>setup (main.ino)\<close>

text \<open>
  What one run of \<open>setup\<close> is answered: the clock, the thermometer, the result of
  \<open>SD.begin\<close>, and the results of the two calls of \<open>SD.open\<close> (the one that writes the
  header, made only when the file is absent, and the one that tests access).
\<close>

record setup_env =
  s_rtc :: ds3231
  s_mlx :: mlx90614
  s_sd_begin :: bool
  s_open_header :: bool
  s_open_check :: bool

text \<open>\<open>while(true);\<close> spins without any effect: the run stays in the world it reached.\<close>

datatype halt = RTC_failed | IR_failed | SD_failed | File_inaccessible

datatype boot = Halted halt world | Ready world

fun world_of :: "boot \<Rightarrow> world" where
  "world_of (Halted h w) = w"
| "world_of (Ready w) = w"

definition sd_begin :: "bool \<Rightarrow> world \<Rightarrow> bool \<times> world" where
  "sd_begin ok w = (ok, emit (Sd SdBegin) w)"

definition mlx_do :: "mlx_call \<Rightarrow> world \<Rightarrow> world" where
  "mlx_do c w = emit (Mlx c) w"

text \<open>Lines 140 to 161: the header, the access test and the end of setup.\<close>

definition setup_file :: "setup_env \<Rightarrow> world \<Rightarrow> boot" where
  "setup_file env w0 =
     (let (ex, w1) = sd_exists w0;
          w2 = (if \<not> ex then
                  (let a = sd_open (s_open_header env) w1;
                       b = file_println CSV_HEADER a;
                       c = file_close b;
                       d = serial_print ''Wrote header to datalog: '' c
                   in serial_println CSV_HEADER d)
                else w1);
          w3 = sd_open (s_open_check env) w2
      in if \<not> datalog w3 then
           Halted File_inaccessible (serial_println ''datalog.csv file is NOT accessible!'' w3)
         else
           (let w4 = serial_println ''datalog.csv file is accessible!'' w3;
                w5 = file_close w4;
                w6 = delay 1000 w5;
                w7 = digitalWrite LED False w6
            in Ready (serial_println ''***** INITIALIZATION COMPLETE! *****'' w7)))"

text \<open>Lines 126 to 139: the chip select pin and the medium.\<close>

definition setup_sd :: "setup_env \<Rightarrow> world \<Rightarrow> boot" where
  "setup_sd env w0 =
     (let w1 = pinMode CS w0;
          w2 = digitalWrite CS True w1;
          w3 = serial_print ''Initializing uSD module (ADA254)... '' w2;
          (ok, w4) = sd_begin (s_sd_begin env) w3
      in if \<not> ok then Halted SD_failed (serial_println ''FAIL!'' w4)
         else setup_file env (serial_println ''SUCCESS!'' w4))"

text \<open>Lines 115 to 124: the thermometer.\<close>

definition setup_ir :: "setup_env \<Rightarrow> world \<Rightarrow> boot" where
  "setup_ir env w0 =
     (let w1 = serial_print ''Initializing IR module (MLX90614)...'' w0;
          w2 = mlx_do MlxBegin w1
      in if \<not> begin_ok (s_mlx env) then Halted IR_failed (serial_println ''FAIL!'' w2)
         else
           (let w3 = serial_println ''DONE!'' w2;
                w4 = serial_print ''Emissivity = '' w3;
                w5 = mlx_do ReadEmissivity w4;
                w6 = serial_println (emissivity_text (s_mlx env)) w5
            in setup_sd env w6))"

text \<open>
  Lines 92 to 113: the indicator, the serial line, the bus and the clock. On this board
  \<open>while (!Serial);\<close> falls through at once. The function \<open>setup\<close> of main.ino is
  \<open>main_setup\<close> here, \<open>setup\<close> being a keyword of Isabelle; it continues in
  \<open>setup_ir\<close>, \<open>setup_sd\<close> and \<open>setup_file\<close>.
\<close>

definition main_setup :: "setup_env \<Rightarrow> world \<Rightarrow> boot" where
  "main_setup env w0 =
     (let w1 = pinMode LED w0;
          w2 = digitalWrite LED True w1;
          w3 = emit (SerialBegin 9600) w2;
          w4 = emit WireBegin w3;
          w5 = serial_print ''Testing RTC module (DS3231)...'' w4;
          (t, w6) = rtc_get GetTemperature temperature (s_rtc env) w5
      in if t \<le> - 9999 then Halted RTC_failed (serial_println ''FAIL!'' w6)
         else
           (let w7 = serial_println ''DONE!'' w6;
                w8 = serial_print ''Time = '' w7;
                (time, w9) = print_time (s_rtc env) w8;
                w10 = serial_println time w9
            in setup_ir env w10))"

subsection \<open>The record buffer\<close>

text \<open>
  \<open>char data_str[32]{}\<close> is 32 zero bytes. \<open>String::c_str()\<close> is the characters of the
  string followed by a terminating zero. \<open>strcpy\<close> copies byte by byte up to and
  including the first zero of the source; a write at an index outside the destination
  array is undefined behaviour of the program, which the model reports as a fault.
\<close>

datatype fault = Buffer_overrun | Source_overrun

definition NUL :: char where
  "NUL = CHR 0x00"

definition data_str0 :: string where
  "data_str0 = replicate 32 NUL"

definition c_str :: "string \<Rightarrow> string" where
  "c_str s = s @ [NUL]"

fun strcpy :: "string \<Rightarrow> nat \<Rightarrow> string \<Rightarrow> fault + string" where
  "strcpy dst i [] = Inl Source_overrun"
| "strcpy dst i (c # cs) =
     (if length dst \<le> i then Inl Buffer_overrun
      else if c = NUL then Inr (dst[i := c])
      else strcpy (dst[i := c]) (Suc i) cs)"

text \<open>Reading a character array as a C string, as \<open>println(data_str)\<close> does.\<close>

definition c_chars :: "string \<Rightarrow> string" where
  "c_chars buf = takeWhile (\<lambda>c. c \<noteq> NUL) buf"

definition read_c_string :: "string \<Rightarrow> fault + string" where
  "read_c_string buf = (if NUL \<in> set buf then Inr (c_chars buf) else Inl Source_overrun)"

definition strlen :: "string \<Rightarrow> nat" where
  "strlen s = length (c_chars s)"

subsection \<open>loop (main.ino)\<close>

text \<open>
  What one run of \<open>loop\<close> is answered: the clock, the thermometer, the result of the
  k-th call of \<open>SD.begin\<close> in this run (k from 0), and the result of \<open>SD.open\<close>.
\<close>

record loop_env =
  l_rtc :: ds3231
  l_mlx :: mlx90614
  l_sd_begin :: "nat \<Rightarrow> bool"
  l_open :: bool

text \<open>Lines 167 to 171: the readings and the record.\<close>

definition loop_collect :: "loop_env \<Rightarrow> world \<Rightarrow> string \<times> world" where
  "loop_collect env w0 =
     (let (time, w1) = print_time (l_rtc env) w0;
          w2 = mlx_do ReadAmbientTempC w1;
          ambient_temp = ambient_text (l_mlx env);
          w3 = mlx_do ReadObjectTempC w2;
          object_temp = object_text (l_mlx env);
          data = time @ '','' @ object_temp @ '','' @ ambient_temp
      in (data, w3))"

text \<open>
  Lines 177 to 180: \<open>while (!SD.begin(CS))\<close>. The loop has no bound; a run in which no
  call ever succeeds does not return, which is the value \<open>None\<close>.
\<close>

definition retry :: "world \<Rightarrow> world" where
  "retry w = delay 1000 (serial_println ''No uSD card detected!'' (emit (Sd SdBegin) w))"

partial_function (option) wait_for_card :: "(nat \<Rightarrow> bool) \<Rightarrow> nat \<Rightarrow> world \<Rightarrow> world option" where
  [code]: "wait_for_card answers k w =
     (if \<not> answers k then wait_for_card answers (Suc k) (retry w)
      else Some (emit (Sd SdBegin) w))"

text \<open>The failure signal of lines 189 to 195.\<close>

definition blink :: "world \<Rightarrow> world" where
  "blink w0 =
     (let w1 = digitalWrite LED True w0;
          w2 = delay 200 w1;
          w3 = digitalWrite LED False w2;
          w4 = delay 200 w3;
          w5 = digitalWrite LED True w4;
          w6 = delay 200 w5
      in digitalWrite LED False w6)"

text \<open>Lines 182 to 199: open, log or signal, close, wait.\<close>

definition loop_log :: "bool \<Rightarrow> string \<Rightarrow> world \<Rightarrow> world" where
  "loop_log ok line w0 =
     (let w1 = sd_open ok w0;
          w2 = (if datalog w1 then
                  serial_println ''wrote to datalog.csv'' (file_println line w1)
                else
                  blink (serial_println ''Could not open datalog.csv!'' w1));
          w3 = file_close w2
      in delay 60000 w3)"

definition loop :: "loop_env \<Rightarrow> world \<Rightarrow> (fault + world) option" where
  "loop env w0 =
     (let (data, w1) = loop_collect env w0
      in case strcpy data_str0 0 (c_str data) of
           Inl f \<Rightarrow> Some (Inl f)
         | Inr data_str \<Rightarrow>
            (case read_c_string data_str of
               Inl f \<Rightarrow> Some (Inl f)
             | Inr line \<Rightarrow>
                (case wait_for_card (l_sd_begin env) 0 (serial_println line w1) of
                   None \<Rightarrow> None
                 | Some w2 \<Rightarrow> Some (Inr (loop_log (l_open env) line w2)))))"

subsection \<open>The device\<close>

text \<open>
  The Arduino core runs \<open>setup\<close> once and then \<open>loop\<close> for ever. A run is observed
  after a finite number of iterations, one \<open>loop_env\<close> each: it has stopped in a halt
  of \<open>setup\<close>, it is blocked for ever waiting for the medium, it has left defined
  behaviour, or it is running.
\<close>

datatype status = Stopped halt world | Blocked | Crashed fault | Running world

fun iterate :: "loop_env list \<Rightarrow> world \<Rightarrow> status" where
  "iterate [] w = Running w"
| "iterate (e # es) w =
     (case loop e w of
        None \<Rightarrow> Blocked
      | Some (Inl f) \<Rightarrow> Crashed f
      | Some (Inr w') \<Rightarrow> iterate es w')"

definition power_on :: "setup_env \<Rightarrow> loop_env list \<Rightarrow> world \<Rightarrow> status" where
  "power_on env es w =
     (case main_setup env w of
        Halted h w' \<Rightarrow> Stopped h w'
      | Ready w' \<Rightarrow> iterate es w')"

subsection \<open>setup (calibrate.ino)\<close>

definition rtc_set :: "rtc_call \<Rightarrow> world \<Rightarrow> world" where
  "rtc_set c w = emit (Rtc c) w"

definition calibrate_setup :: "world \<Rightarrow> world" where
  "calibrate_setup w0 =
     (let w1 = emit (SerialBegin 9600) w0;
          w2 = emit WireBegin w1;
          w3 = rtc_set (SetClockMode False) w2;
          w4 = rtc_set (SetYear 24) w3;
          w5 = rtc_set (SetMonth 4) w4;
          w6 = rtc_set (SetDate 8) w5;
          w7 = rtc_set (SetHour 3) w6;
          w8 = rtc_set (SetMinute 9) w7;
          w9 = rtc_set (SetSecond 5) w8;
          w10 = serial_println ''Clock set!'' w9;
          w11 = mlx_do MlxBegin w10;
          w12 = mlx_do (WriteEmissivity 0.95) w11
      in serial_println ''IR set!'' w12)"

text \<open>Which calls change what a peripheral holds.\<close>

fun rtc_writes :: "rtc_call \<Rightarrow> bool" where
  "rtc_writes (SetClockMode _) = True"
| "rtc_writes (SetYear _) = True"
| "rtc_writes (SetMonth _) = True"
| "rtc_writes (SetDate _) = True"
| "rtc_writes (SetHour _) = True"
| "rtc_writes (SetMinute _) = True"
| "rtc_writes (SetSecond _) = True"
| "rtc_writes _ = False"

fun mlx_writes :: "mlx_call \<Rightarrow> bool" where
  "mlx_writes (WriteEmissivity _) = True"
| "mlx_writes _ = False"

fun modifies :: "event \<Rightarrow> bool" where
  "modifies (Rtc c) = rtc_writes c"
| "modifies (Mlx c) = mlx_writes c"
| "modifies _ = False"

subsection \<open>Observations on traces\<close>

text \<open>The events that \<open>w'\<close> has after those of \<open>w\<close>.\<close>

definition since :: "world \<Rightarrow> world \<Rightarrow> event list" where
  "since w w' = drop (length (trace w)) (trace w')"

text \<open>The levels written to the indicator pin, in order.\<close>

fun led_levels :: "event list \<Rightarrow> bool list" where
  "led_levels [] = []"
| "led_levels (DigitalWrite pin level # es) =
     (if pin = LED then level # led_levels es else led_levels es)"
| "led_levels (_ # es) = led_levels es"

text \<open>The number of pulses in a sequence of levels: an on that is followed by an off.\<close>

fun pulses :: "bool list \<Rightarrow> nat" where
  "pulses (a # b # vs) = (if a \<and> \<not> b then 1 else 0) + pulses (b # vs)"
| "pulses _ = 0"

definition blink_count :: "(fault + world) option \<Rightarrow> (fault + nat) option" where
  "blink_count r = map_option (map_sum id (\<lambda>w. pulses (led_levels (trace w)))) r"

text \<open>The calls on the file: open, print a line, close.\<close>

fun file_op :: "event \<Rightarrow> bool" where
  "file_op (Sd SdOpen) = True"
| "file_op (Sd (SdPrintln _)) = True"
| "file_op (Sd SdClose) = True"
| "file_op _ = False"

subsection \<open>Sample inputs\<close>

text \<open>A board at power-up with a blank medium.\<close>

definition fresh :: world where
  "fresh = \<lparr>led = False, log_file = None, datalog = False, trace = []\<rparr>"

text \<open>The clock showing the date and time that calibrate.ino sets.\<close>

definition clock_calibrated :: ds3231 where
  "clock_calibrated =
     \<lparr>year = 24, month = 4, date = 8, hour = 3, minute = 9, second = 5, temperature = 25\<rparr>"

text \<open>A clock showing 2024-10-12 10:11:12.\<close>

definition clock_october :: ds3231 where
  "clock_october =
     \<lparr>year = 24, month = 10, date = 12, hour = 10, minute = 11, second = 12, temperature = 25\<rparr>"

definition thermometer :: mlx90614 where
  "thermometer =
     \<lparr>begin_ok = True, emissivity_text = ''0.95'', ambient_text = ''24.91'',
      object_text = ''25.37''\<rparr>"

definition thermometer_frost :: mlx90614 where
  "thermometer_frost =
     \<lparr>begin_ok = True, emissivity_text = ''0.95'', ambient_text = ''-10.50'',
      object_text = ''-12.34''\<rparr>"

definition healthy :: setup_env where
  "healthy =
     \<lparr>s_rtc = clock_calibrated, s_mlx = thermometer, s_sd_begin = True,
      s_open_header = True, s_open_check = True\<rparr>"

text \<open>An iteration in which the medium is found at the third call of \<open>SD.begin\<close>.\<close>

definition sample :: loop_env where
  "sample =
     \<lparr>l_rtc = clock_calibrated, l_mlx = thermometer, l_sd_begin = (\<lambda>k. 2 \<le> k),
      l_open = True\<rparr>"

text \<open>The board after a successful setup, with the header and two records in the file.\<close>

definition logging :: world where
  "logging =
     \<lparr>led = False,
      log_file = Some [CSV_HEADER, ''2024-4-8 3:7:5,25.31,24.90'', ''2024-4-8 3:8:5,25.35,24.90''],
      datalog = False, trace = []\<rparr>"

text \<open>A startup in which the thermometer does not answer.\<close>

definition sensor_dead :: setup_env where
  "sensor_dead = healthy\<lparr>s_mlx := thermometer\<lparr>begin_ok := False\<rparr>\<rparr>"

text \<open>A startup in which the clock does not answer: its temperature reads -9999.\<close>

definition clock_dead :: setup_env where
  "clock_dead = healthy\<lparr>s_rtc := clock_calibrated\<lparr>temperature := - 9999\<rparr>\<rparr>"

text \<open>The sample iteration with a medium that is found but whose file cannot be opened.\<close>

definition refused :: loop_env where
  "refused = sample\<lparr>l_open := False\<rparr>"

text \<open>An iteration with a 19-character time and two negative temperatures.\<close>

definition frost :: loop_env where
  "frost =
     \<lparr>l_rtc = clock_october, l_mlx = thermometer_frost, l_sd_begin = (\<lambda>k. True),
      l_open = True\<rparr>"

text \<open>The sample iteration with a medium that never comes back.\<close>

definition absent :: loop_env where
  "absent = sample\<lparr>l_sd_begin := (\<lambda>k. False)\<rparr>"

text \<open>
  A startup in which the open that writes the header fails and the open that tests
  access succeeds.
\<close>

definition flaky :: setup_env where
  "flaky = healthy\<lparr>s_open_header := False\<rparr>"

text \<open>A file that starts with the header line and has it nowhere else.\<close>

fun headed :: "string list option \<Rightarrow> bool" where
  "headed (Some (h # ds)) = (h = CSV_HEADER \<and> CSV_HEADER \<notin> set ds)"
| "headed _ = False"

section \<open>Basic facts\<close>

subsection \<open>The fields of the board after each operation\<close>

lemmas wrap_defs = pinMode_def serial_print_def serial_println_def delay_def mlx_do_def
  rtc_set_def rtc_get_def sd_exists_def sd_begin_def

lemma emit_fields [simp]:
  "trace (emit e w) = trace w @ [e]"
  "led (emit e w) = led w"
  "log_file (emit e w) = log_file w"
  "datalog (emit e w) = datalog w"
  by (simp_all add: emit_def)

lemma digitalWrite_fields [simp]:
  "trace (digitalWrite pin level w) = trace w @ [DigitalWrite pin level]"
  "led (digitalWrite pin level w) = (if pin = LED then level else led w)"
  "log_file (digitalWrite pin level w) = log_file w"
  "datalog (digitalWrite pin level w) = datalog w"
  by (simp_all add: digitalWrite_def emit_def)

lemma sd_open_fields [simp]:
  "trace (sd_open ok w) = trace w @ [Sd SdOpen]"
  "led (sd_open ok w) = led w"
  "log_file (sd_open ok w) =
     (if ok then Some (case log_file w of None \<Rightarrow> [] | Some ls \<Rightarrow> ls) else log_file w)"
  "datalog (sd_open ok w) = ok"
  by (simp_all add: sd_open_def emit_def)

lemma file_println_fields [simp]:
  "trace (file_println s w) = trace w @ [Sd (SdPrintln s)]"
  "led (file_println s w) = led w"
  "log_file (file_println s w) =
     (if datalog w then map_option (\<lambda>ls. ls @ [s]) (log_file w) else log_file w)"
  "datalog (file_println s w) = datalog w"
  by (simp_all add: file_println_def emit_def)

lemma file_close_fields [simp]:
  "trace (file_close w) = trace w @ [Sd SdClose]"
  "led (file_close w) = led w"
  "log_file (file_close w) = log_file w"
  "datalog (file_close w) = False"
  by (simp_all add: file_close_def emit_def)

lemma utoa_length1: "n < 10 \<Longrightarrow> length (utoa n) = 1"
  by (simp add: utoa.simps [of n])

lemma utoa_length2: "10 \<le> n \<Longrightarrow> n < 100 \<Longrightarrow> length (utoa n) = 2"
  using utoa_length1 [of "n div 10"] by (simp add: utoa.simps [of n])

lemma utoa_length3: "100 \<le> n \<Longrightarrow> n < 1000 \<Longrightarrow> length (utoa n) = 3"
  using utoa_length2 [of "n div 10"] by (simp add: utoa.simps [of n])

lemma digit_not_NUL: "d < 10 \<Longrightarrow> digit d \<noteq> NUL"
proof -
  assume "d < 10"
  then have "d \<in> {0,1,2,3,4,5,6,7,8,9}" by auto
  then show ?thesis by (auto simp: digit_def NUL_def)
qed

lemma utoa_no_NUL: "NUL \<notin> set (utoa n)"
proof (induction n rule: utoa.induct)
  case (1 n)
  show ?case
  proof (cases "n < 10")
    case True
    then show ?thesis using digit_not_NUL [of n] by (simp add: utoa.simps [of n])
  next
    case False
    then show ?thesis using 1 digit_not_NUL [of "n mod 10"] by (simp add: utoa.simps [of n])
  qed
qed

lemma print_time_text:
  "fst (print_time rtc w) =
     ''20'' @ String_of_byte (year rtc) @ ''-'' @ String_of_byte (month rtc) @ ''-'' @
     String_of_byte (date rtc) @ '' '' @ String_of_byte (hour rtc) @ '':'' @
     String_of_byte (minute rtc) @ '':'' @ String_of_byte (second rtc)"
  by (simp add: print_time_def rtc_get_def)

lemma print_time_fields [simp]:
  "trace (snd (print_time rtc w)) =
     trace w @ [Rtc GetYear, Rtc GetMonth, Rtc GetDate, Rtc GetHour, Rtc GetMinute, Rtc GetSecond]"
  "led (snd (print_time rtc w)) = led w"
  "log_file (snd (print_time rtc w)) = log_file w"
  "datalog (snd (print_time rtc w)) = datalog w"
  by (simp_all add: print_time_def rtc_get_def)

lemma strcpy_c_str:
  "strcpy dst i (c_str s) =
     (if i + strlen s < length dst
      then Inr (take i dst @ c_chars s @ [NUL] @ drop (Suc (i + strlen s)) dst)
      else Inl Buffer_overrun)"
proof (induction s arbitrary: dst i)
  case Nil
  show ?case
    by (simp add: c_str_def strlen_def c_chars_def upd_conv_take_nth_drop)
next
  case (Cons c s)
  show ?case
  proof (cases "c = NUL")
    case True
    then show ?thesis
      by (simp add: c_str_def strlen_def c_chars_def upd_conv_take_nth_drop)
  next
    case False
    have step: "strcpy dst i (c_str (c # s)) =
        (if length dst \<le> i then Inl Buffer_overrun else strcpy (dst[i := c]) (Suc i) (c_str s))"
      using False by (simp add: c_str_def)
    show ?thesis
    proof (cases "i < length dst")
      case True
      then show ?thesis
        using False Cons [of "dst[i := c]" "Suc i"]
        by (auto simp: step strlen_def c_chars_def upd_conv_take_nth_drop take_Suc_conv_app_nth add.commute)
    next
      case False
      then show ?thesis by (simp add: step)
    qed
  qed
qed

lemma wait_for_card_found:
  "(\<forall>j<n. \<not> answers (k + j)) \<Longrightarrow> answers (k + n) \<Longrightarrow>
   wait_for_card answers k w = Some (emit (Sd SdBegin) ((retry ^^ n) w))"
proof (induction n arbitrary: k w)
  case 0
  then show ?case by (simp add: wait_for_card.simps [of answers k])
next
  case (Suc n)
  have nk: "\<not> answers k" using Suc.prems(1) [rule_format, of 0] by simp
  have "wait_for_card answers (Suc k) (retry w) = Some (emit (Sd SdBegin) ((retry ^^ n) (retry w)))"
  proof (rule Suc.IH)
    show "\<forall>j<n. \<not> answers (Suc k + j)"
      using Suc.prems(1) by (metis Suc_less_eq add_Suc_right add_Suc)
    show "answers (Suc k + n)" using Suc.prems(2) by simp
  qed
  then show ?case using nk
    by (simp add: wait_for_card.simps [of answers k] funpow_swap1)
qed

lemma wait_for_card_Some:
  assumes "wait_for_card answers k w = Some w'"
  shows "\<exists>j. answers (k + j)"
proof (rule wait_for_card.raw_induct [where P = "\<lambda>a k w y. \<exists>j. a (k + j)", OF _ assms])
  fix wfc :: "(nat \<Rightarrow> bool) \<Rightarrow> nat \<Rightarrow> world \<Rightarrow> world option"
  fix a k w y
  assume IH: "\<And>a k w y. wfc a k w = Some y \<Longrightarrow> \<exists>j. a (k + j)"
    and eq: "(if \<not> a k then wfc a (Suc k) (retry w) else Some (emit (Sd SdBegin) w)) = Some y"
  show "\<exists>j. a (k + j)"
  proof (cases "a k")
    case True
    then have "a (k + 0)" by simp
    then show ?thesis by blast
  next
    case False
    then have "wfc a (Suc k) (retry w) = Some y" using eq by simp
    then obtain j where "a (Suc k + j)" using IH by blast
    then have "a (k + Suc j)" by simp
    then show ?thesis by blast
  qed
qed

lemma first_answer:
  assumes "answers ((k::nat) + j)"
  shows "\<exists>n. (\<forall>i<n. \<not> answers (k + i)) \<and> answers (k + n)"
proof -
  have "\<exists>n. answers (k + n)" using assms by blast
  then show ?thesis using exists_least_iff [of "\<lambda>n. answers (k + n)"] by blast
qed

lemma retry_fields [simp]:
  "trace (retry w) = trace w @ [Sd SdBegin, Println ''No uSD card detected!'', Delay 1000]"
  "led (retry w) = led w"
  "log_file (retry w) = log_file w"
  "datalog (retry w) = datalog w"
  by (simp_all add: retry_def wrap_defs)

lemma retry_funpow_fields [simp]:
  "trace ((retry ^^ n) w) =
     trace w @ concat (replicate n [Sd SdBegin, Println ''No uSD card detected!'', Delay 1000])"
  "led ((retry ^^ n) w) = led w"
  "log_file ((retry ^^ n) w) = log_file w"
  "datalog ((retry ^^ n) w) = datalog w"
proof -
  have "trace ((retry ^^ n) w) =
      trace w @ concat (replicate n [Sd SdBegin, Println ''No uSD card detected!'', Delay 1000])
    \<and> led ((retry ^^ n) w) = led w \<and> log_file ((retry ^^ n) w) = log_file w
    \<and> datalog ((retry ^^ n) w) = datalog w"
  proof (induction n arbitrary: w)
    case 0
    show ?case by simp
  next
    case (Suc n)
    have "(retry ^^ Suc n) w = (retry ^^ n) (retry w)"
      by (simp add: funpow_swap1)
    then show ?case using Suc [of "retry w"] by simp
  qed
  then show
    "trace ((retry ^^ n) w) =
       trace w @ concat (replicate n [Sd SdBegin, Println ''No uSD card detected!'', Delay 1000])"
    "led ((retry ^^ n) w) = led w"
    "log_file ((retry ^^ n) w) = log_file w"
    "datalog ((retry ^^ n) w) = datalog w"
    by simp_all
qed

lemma c_chars_no_NUL: "NUL \<notin> set (c_chars s)"
  unfolding c_chars_def by (metis (mono_tags, lifting) set_takeWhileD)

lemma c_chars_id: "NUL \<notin> set s \<Longrightarrow> c_chars s = s"
  unfolding c_chars_def by (auto simp: takeWhile_eq_all_conv)

lemma c_chars_terminated: "c_chars (c_chars s @ NUL # rest) = c_chars s"
  using c_chars_no_NUL [of s] unfolding c_chars_def
  by (metis (mono_tags, lifting) append_Nil2 takeWhile.simps(2) takeWhile_append2 set_takeWhileD)

lemma copy_fits:
  assumes "strlen s \<le> 31"
  shows "strcpy data_str0 0 (c_str s) = Inr (c_chars s @ NUL # replicate (31 - strlen s) NUL)"
  using assms by (simp add: strcpy_c_str data_str0_def strlen_def)

lemma copy_overruns:
  assumes "31 < strlen s"
  shows "strcpy data_str0 0 (c_str s) = Inl Buffer_overrun"
  using assms by (simp add: strcpy_c_str data_str0_def)

lemma read_back: "read_c_string (c_chars s @ NUL # rest) = Inr (c_chars s)"
  by (simp add: read_c_string_def c_chars_terminated)

lemma loop_collect_text:
  "fst (loop_collect env w) =
     fst (print_time (l_rtc env) w) @ '','' @ object_text (l_mlx env) @ '','' @ ambient_text (l_mlx env)"
  by (simp add: loop_collect_def split_def Let_def)

lemma loop_collect_fields [simp]:
  "trace (snd (loop_collect env w)) =
     trace w @ [Rtc GetYear, Rtc GetMonth, Rtc GetDate, Rtc GetHour, Rtc GetMinute, Rtc GetSecond,
       Mlx ReadAmbientTempC, Mlx ReadObjectTempC]"
  "led (snd (loop_collect env w)) = led w"
  "log_file (snd (loop_collect env w)) = log_file w"
  "datalog (snd (loop_collect env w)) = datalog w"
  by (simp_all add: loop_collect_def split_def Let_def wrap_defs)

lemma loop_returns:
  assumes fit: "strlen (fst (loop_collect env w)) \<le> 31"
    and before: "\<forall>j<n. \<not> l_sd_begin env j"
    and found: "l_sd_begin env n"
  shows "loop env w =
     Some (Inr (loop_log (l_open env) (c_chars (fst (loop_collect env w)))
       (emit (Sd SdBegin) ((retry ^^ n)
          (serial_println (c_chars (fst (loop_collect env w))) (snd (loop_collect env w)))))))"
proof -
  have "wait_for_card (l_sd_begin env) 0 x = Some (emit (Sd SdBegin) ((retry ^^ n) x))" for x
    using wait_for_card_found [of n "l_sd_begin env" 0 x] before found by simp
  then show ?thesis
    using fit by (simp add: loop_def split_def Let_def copy_fits read_back)
qed

lemma loop_blocked:
  assumes fit: "strlen (fst (loop_collect env w)) \<le> 31"
    and never: "\<forall>j. \<not> l_sd_begin env j"
  shows "loop env w = None"
proof -
  have "wait_for_card (l_sd_begin env) 0 x = None" for x
  proof (cases "wait_for_card (l_sd_begin env) 0 x")
    case None
    then show ?thesis .
  next
    case (Some y)
    then show ?thesis using wait_for_card_Some [of "l_sd_begin env" 0 x y] never by simp
  qed
  then show ?thesis
    using fit by (simp add: loop_def split_def Let_def copy_fits read_back)
qed

lemma loop_crashes:
  assumes "31 < strlen (fst (loop_collect env w))"
  shows "loop env w = Some (Inl Buffer_overrun)"
  using assms by (simp add: loop_def split_def Let_def copy_overruns)

lemma loop_Inr_D:
  assumes "loop env w = Some (Inr w')"
  shows "strlen (fst (loop_collect env w)) \<le> 31 \<and>
         (\<exists>n. (\<forall>j<n. \<not> l_sd_begin env j) \<and> l_sd_begin env n)"
proof -
  have fit: "strlen (fst (loop_collect env w)) \<le> 31"
  proof (rule ccontr)
    assume "\<not> strlen (fst (loop_collect env w)) \<le> 31"
    then have "loop env w = Some (Inl Buffer_overrun)" by (simp add: loop_crashes)
    then show False using assms by simp
  qed
  have "\<exists>j. l_sd_begin env j"
  proof (rule ccontr)
    assume "\<not> (\<exists>j. l_sd_begin env j)"
    then have "loop env w = None" using fit loop_blocked by blast
    then show False using assms by simp
  qed
  then obtain j where "l_sd_begin env (0 + j)" by auto
  then show ?thesis using first_answer [of "l_sd_begin env" 0 j] fit by simp
qed

lemma loop_log_opened [simp]:
  "trace (loop_log True line w) =
     trace w @ [Sd SdOpen, Sd (SdPrintln line), Println ''wrote to datalog.csv'', Sd SdClose,
       Delay 60000]"
  "led (loop_log True line w) = led w"
  "log_file (loop_log True line w) =
     Some ((case log_file w of None \<Rightarrow> [] | Some ls \<Rightarrow> ls) @ [line])"
  "datalog (loop_log True line w) = False"
  by (simp_all add: loop_log_def Let_def wrap_defs)

lemma loop_log_refused [simp]:
  "trace (loop_log False line w) =
     trace w @ [Sd SdOpen, Println ''Could not open datalog.csv!'',
       DigitalWrite LED True, Delay 200, DigitalWrite LED False, Delay 200,
       DigitalWrite LED True, Delay 200, DigitalWrite LED False, Sd SdClose, Delay 60000]"
  "led (loop_log False line w) = False"
  "log_file (loop_log False line w) = log_file w"
  "datalog (loop_log False line w) = False"
  by (simp_all add: loop_log_def blink_def Let_def wrap_defs)

lemmas setup_defs = main_setup_def setup_ir_def setup_sd_def setup_file_def Let_def split_def

lemma since_append [simp]: "trace w' = trace w @ xs \<Longrightarrow> since w w' = xs"
  by (simp add: since_def)

lemma iterate_not_Stopped: "iterate es w \<noteq> Stopped h w'"
  by (induction es arbitrary: w) (auto split: option.splits sum.splits)

lemma String_of_byte_length:
  "length (String_of_byte b) = (if unat b < 10 then 1 else if unat b < 100 then 2 else 3)"
proof -
  have "unat b < 2 ^ LENGTH(8)" by (rule unsigned_less)
  then have "unat b < 256" by simp
  then show ?thesis
    using utoa_length1 [of "unat b"] utoa_length2 [of "unat b"] utoa_length3 [of "unat b"]
    by (simp add: String_of_byte_def)
qed

lemma print_time_length:
  "length (fst (print_time rtc w)) =
     7 + length (String_of_byte (year rtc)) + length (String_of_byte (month rtc)) +
     length (String_of_byte (date rtc)) + length (String_of_byte (hour rtc)) +
     length (String_of_byte (minute rtc)) + length (String_of_byte (second rtc))"
  by (simp add: print_time_text)

lemma print_time_19_iff:
  assumes "unat (year rtc) < 100" "unat (month rtc) < 100" "unat (date rtc) < 100"
    "unat (hour rtc) < 100" "unat (minute rtc) < 100" "unat (second rtc) < 100"
  shows "length (fst (print_time rtc w)) = 19 \<longleftrightarrow>
     10 \<le> unat (year rtc) \<and> 10 \<le> unat (month rtc) \<and> 10 \<le> unat (date rtc) \<and>
     10 \<le> unat (hour rtc) \<and> 10 \<le> unat (minute rtc) \<and> 10 \<le> unat (second rtc)"
  using assms by (simp add: print_time_length String_of_byte_length)

lemma filter_concat_replicate:
  "filter P xs = [] \<Longrightarrow> filter P (concat (replicate n xs)) = []"
  by (induction n) simp_all

lemma led_levels_append [simp]: "led_levels (xs @ ys) = led_levels xs @ led_levels ys"
  by (induction xs rule: led_levels.induct) simp_all

lemma led_levels_retries [simp]:
  "led_levels (concat (replicate n [Sd SdBegin, Println ''No uSD card detected!'', Delay 1000])) = []"
  by (induction n) simp_all

subsection \<open>The sample inputs\<close>

lemma sample_text:
  "fst (loop_collect sample w) = ''2024-4-8 3:9:5,25.37,24.91''"
  by (simp add: loop_collect_text print_time_text sample_def clock_calibrated_def thermometer_def
      String_of_byte_def utoa.simps digit_def)

lemma sample_fits: "strlen (fst (loop_collect sample w)) \<le> 31"
  by (simp add: sample_text strlen_def c_chars_def NUL_def)

lemma sample_line: "c_chars (fst (loop_collect sample w)) = ''2024-4-8 3:9:5,25.37,24.91''"
  by (simp add: sample_text c_chars_def NUL_def)

lemma refused_collect: "loop_collect refused w = loop_collect sample w"
  by (simp add: loop_collect_def refused_def)

lemma frost_text:
  "fst (loop_collect frost w) = ''2024-10-12 10:11:12,-12.34,-10.50''"
  by (simp add: loop_collect_text print_time_text frost_def clock_october_def thermometer_frost_def
      String_of_byte_def utoa.simps digit_def)

lemma absent_collect: "loop_collect absent w = loop_collect sample w"
  by (simp add: loop_collect_def absent_def)

lemma frost_overlong: "strlen (fst (loop_collect frost w)) = 33"
  by (simp add: frost_text strlen_def c_chars_def NUL_def)

subsection \<open>Characters of the record\<close>

lemma print_time_no_NUL: "NUL \<notin> set (fst (print_time rtc w))"
proof -
  have "NUL \<notin> set (String_of_byte b)" for b
    by (simp add: String_of_byte_def utoa_no_NUL)
  then show ?thesis
    by (simp add: print_time_text) (simp add: NUL_def)
qed

lemma record_no_NUL:
  assumes "NUL \<notin> set (object_text (l_mlx env))" and "NUL \<notin> set (ambient_text (l_mlx env))"
  shows "NUL \<notin> set (fst (loop_collect env w))"
  using assms print_time_no_NUL [of "l_rtc env" w]
  by (simp add: loop_collect_text) (simp add: NUL_def)

subsection \<open>The header line\<close>

text \<open>
  Setup keeps a file that is absent or starts with its only header line in that shape,
  provided that the open that writes the header succeeds when the file is absent; an
  iteration of loop keeps a headed file headed, since no record equals the header.
\<close>

lemma headed_append: "headed f \<Longrightarrow> line \<noteq> CSV_HEADER \<Longrightarrow> headed (map_option (\<lambda>ls. ls @ [line]) f)"
  by (cases f rule: headed.cases) auto

lemma record_line_not_header: "c_chars (fst (loop_collect env w)) \<noteq> CSV_HEADER"
  by (simp add: loop_collect_text print_time_text c_chars_def NUL_def CSV_HEADER_def)

lemma setup_keeps_header:
  assumes "log_file w = None \<or> headed (log_file w)"
    and "log_file w = None \<longrightarrow> s_open_header env"
  shows "(\<forall>w'. main_setup env w = Ready w' \<longrightarrow> headed (log_file w'))
       \<and> (\<forall>h w'. main_setup env w = Halted h w' \<longrightarrow> log_file w' = None \<or> headed (log_file w'))"
proof (cases "log_file w")
  case None
  then show ?thesis using assms
    by (cases "temperature (s_rtc env) \<le> - 9999"; cases "begin_ok (s_mlx env)";
        cases "s_sd_begin env"; cases "s_open_check env")
      (simp_all add: setup_defs wrap_defs)
next
  case (Some ls)
  then show ?thesis using assms
    by (cases "temperature (s_rtc env) \<le> - 9999"; cases "begin_ok (s_mlx env)";
        cases "s_sd_begin env"; cases "s_open_check env")
      (simp_all add: setup_defs wrap_defs)
qed

lemma loop_keeps_header:
  assumes "headed (log_file w)" and ret: "loop env w = Some (Inr w')"
  shows "headed (log_file w')"
proof -
  from loop_Inr_D [OF ret] obtain n
    where fit: "strlen (fst (loop_collect env w)) \<le> 31"
      and before: "\<forall>j<n. \<not> l_sd_begin env j" and found: "l_sd_begin env n"
    by blast
  have w': "w' = loop_log (l_open env) (c_chars (fst (loop_collect env w)))
       (emit (Sd SdBegin) ((retry ^^ n)
          (serial_println (c_chars (fst (loop_collect env w))) (snd (loop_collect env w)))))"
    using loop_returns [OF fit before found] ret by simp
  obtain ls where ls: "log_file w = Some ls" using assms(1) by (cases "log_file w") auto
  show ?thesis
    using assms(1) headed_append [OF assms(1) record_line_not_header [of env w]]
    by (cases "l_open env") (simp_all add: w' serial_println_def ls)
qed

lemma iterate_keeps_header:
  "headed (log_file w) \<Longrightarrow> iterate es w = Running w' \<Longrightarrow> headed (log_file w')"
proof (induction es arbitrary: w)
  case Nil
  then show ?case by simp
next
  case (Cons e es)
  then show ?case
    by (auto split: option.splits sum.splits dest: loop_keeps_header)
qed

lemma power_on_keeps_header:
  assumes "log_file w = None \<or> headed (log_file w)"
    and "log_file w = None \<longrightarrow> s_open_header env"
    and "power_on env es w = Running w'"
  shows "headed (log_file w')"
proof (cases "main_setup env w")
  case (Halted h w1)
  then show ?thesis using assms(3) by (simp add: power_on_def)
next
  case (Ready w1)
  then have "headed (log_file w1)" using setup_keeps_header [OF assms(1,2)] by blast
  then show ?thesis using assms(3) Ready by (simp add: power_on_def iterate_keeps_header)
qed

section \<open>Startup\<close>

text \<open>
  C5. When one of the four startup checks fails (the clock's temperature is at or below
  -9999, the thermometer does not begin, the medium does not begin, or the access test
  cannot open the file), setup ends in a halt, named after the first check that failed.
  However many iterations the run is given, the device stays stopped in the world setup
  reached: no loop iteration runs. The indicator is on, the only level written to it is
  on, and unless the halt is the one of the access test the file is as it was and no call
  on the file was made.
\<close>

theorem startup_failure_halts:
  assumes "temperature (s_rtc env) \<le> - 9999 \<or> \<not> begin_ok (s_mlx env) \<or> \<not> s_sd_begin env
           \<or> \<not> s_open_check env"
  shows "\<exists>h w'. main_setup env w = Halted h w'
           \<and> h = (if temperature (s_rtc env) \<le> - 9999 then RTC_failed
                  else if \<not> begin_ok (s_mlx env) then IR_failed
                  else if \<not> s_sd_begin env then SD_failed else File_inaccessible)
           \<and> (\<forall>es. power_on env es w = Stopped h w')
           \<and> led w'
           \<and> led_levels (since w w') = [True]
           \<and> (h \<noteq> File_inaccessible \<longrightarrow> log_file w' = log_file w \<and> filter file_op (since w w') = [])"
proof (cases "temperature (s_rtc env) \<le> - 9999")
  case True
  then show ?thesis
    by (simp add: power_on_def setup_defs wrap_defs since_def LED_def CS_def)
next
  case rtc: False
  show ?thesis
  proof (cases "begin_ok (s_mlx env)")
    case False
    then show ?thesis using rtc
      by (simp add: power_on_def setup_defs wrap_defs since_def LED_def CS_def)
  next
    case ir: True
    show ?thesis
    proof (cases "s_sd_begin env")
      case False
      then show ?thesis using rtc ir
        by (simp add: power_on_def setup_defs wrap_defs since_def LED_def CS_def)
    next
      case sd: True
      then have chk: "\<not> s_open_check env" using assms rtc ir by simp
      show ?thesis
      proof (cases "log_file w")
        case None
        then show ?thesis using rtc ir sd chk
          by (cases "s_open_header env")
            (simp_all add: power_on_def setup_defs wrap_defs since_def LED_def CS_def)
      next
        case (Some ls)
        then show ?thesis using rtc ir sd chk
          by (simp add: power_on_def setup_defs wrap_defs since_def LED_def CS_def)
      qed
    qed
  qed
qed

theorem startup_failure_halts_witness:
  "\<exists>w'. main_setup sensor_dead fresh = Halted IR_failed w'
        \<and> (\<forall>es. power_on sensor_dead es fresh = Stopped IR_failed w')
        \<and> led w' \<and> led_levels (since fresh w') = [True] \<and> log_file w' = None"
  using startup_failure_halts [of sensor_dead fresh]
  by (auto simp: sensor_dead_def healthy_def thermometer_def clock_calibrated_def fresh_def)

text \<open>
  C8. Setup halts at the clock check exactly when the temperature the clock reports is
  at or below -9999, and then the device is stopped there; for any reading above -9999
  setup goes on to begin the thermometer.
\<close>

theorem clock_probe_sentinel:
  "((\<exists>w'. main_setup env w = Halted RTC_failed w') \<longleftrightarrow> temperature (s_rtc env) \<le> - 9999)
   \<and> ((\<exists>w'. power_on env es w = Stopped RTC_failed w') \<longleftrightarrow> temperature (s_rtc env) \<le> - 9999)
   \<and> (- 9999 < temperature (s_rtc env) \<longrightarrow>
        Mlx MlxBegin \<in> set (since w (world_of (main_setup env w))))"
proof (cases "temperature (s_rtc env) \<le> - 9999")
  case True
  then show ?thesis
    by (simp add: power_on_def setup_defs wrap_defs)
next
  case False
  then show ?thesis
    by (cases "begin_ok (s_mlx env)"; cases "s_sd_begin env"; cases "s_open_check env")
      (simp_all add: power_on_def setup_defs wrap_defs since_def iterate_not_Stopped)
qed

theorem clock_probe_sentinel_witness:
  "(\<exists>w'. main_setup clock_dead fresh = Halted RTC_failed w')
   \<and> (\<forall>w'. main_setup healthy fresh \<noteq> Halted RTC_failed w')
   \<and> Mlx MlxBegin \<in> set (since fresh (world_of (main_setup healthy fresh)))"
  using clock_probe_sentinel [of clock_dead fresh "[]"] clock_probe_sentinel [of healthy fresh "[]"]
  by (simp add: clock_dead_def healthy_def clock_calibrated_def)

text \<open>
  C2. The header can be left out of a file that did not exist. On a blank medium, when
  the open that writes the header fails and the open that tests access succeeds, setup
  completes with the file created empty, after reporting the header as written; the
  first iteration then puts a record on the first line, and a later startup finds the
  file present and leaves it without a header.
\<close>

theorem header_skipped_when_open_fails:
  "\<exists>w1 w2 w3. main_setup flaky fresh = Ready w1 \<and> log_file w1 = Some []
     \<and> Println CSV_HEADER \<in> set (trace w1)
     \<and> power_on flaky [sample] fresh = Running w2
     \<and> log_file w2 = Some [''2024-4-8 3:9:5,25.37,24.91'']
     \<and> power_on healthy [] w2 = Running w3
     \<and> log_file w3 = Some [''2024-4-8 3:9:5,25.37,24.91'']"
proof -
  have "\<exists>w1. main_setup flaky fresh = Ready w1 \<and> log_file w1 = Some []
      \<and> Println CSV_HEADER \<in> set (trace w1)"
    by (simp add: setup_defs wrap_defs flaky_def healthy_def clock_calibrated_def
        thermometer_def fresh_def)
  then obtain w1 where r1: "main_setup flaky fresh = Ready w1" and f1: "log_file w1 = Some []"
    and p1: "Println CSV_HEADER \<in> set (trace w1)"
    by blast
  have b: "\<forall>j<2. \<not> l_sd_begin sample j" by (simp add: sample_def)
  have n: "l_sd_begin sample 2" by (simp add: sample_def)
  have o: "l_open sample" by (simp add: sample_def)
  obtain w2 where l2: "loop sample w1 = Some (Inr w2)"
    and f2: "log_file w2 = Some [''2024-4-8 3:9:5,25.37,24.91'']"
    using loop_returns [OF sample_fits b n, of w1] f1 o
    by (simp add: sample_line serial_println_def)
  have r2: "power_on flaky [sample] fresh = Running w2"
    by (simp add: power_on_def r1 l2)
  have "\<exists>w3. main_setup healthy w2 = Ready w3 \<and> log_file w3 = log_file w2"
    using f2 by (simp add: setup_defs wrap_defs healthy_def clock_calibrated_def thermometer_def)
  then obtain w3 where r3: "main_setup healthy w2 = Ready w3" and f3: "log_file w3 = log_file w2"
    by blast
  have "power_on healthy [] w2 = Running w3"
    by (simp add: power_on_def r3)
  then show ?thesis using r1 f1 p1 r2 f2 f3 by auto
qed

section \<open>The time stamp\<close>

text \<open>
  C3. The time stamp is not fixed-width: with the clock showing what calibrate.ino
  sets (year 24, month 4, date 8, hour 3, minute 9, second 5), \<open>print_time\<close> returns
  \<open>2024-4-8 3:9:5\<close>, which has 14 characters, not the 19 of \<open>YYYY-MM-DD HH:MM:SS\<close>.
\<close>

theorem print_time_calibrated:
  "fst (print_time clock_calibrated w) = ''2024-4-8 3:9:5''
   \<and> length (fst (print_time clock_calibrated w)) = 14"
  by (simp add: print_time_text clock_calibrated_def String_of_byte_def utoa.simps digit_def)

section \<open>The steady state\<close>

text \<open>
  C1. An iteration whose record fits the buffer, that finds the medium and whose open
  succeeds returns; if the file held the header and N records before, it holds the
  header, the same N records in the same order and the new record after them, N + 1
  records in all. The calls on the file in the iteration are one open, one print of the
  record and one close, and the handle is closed afterwards.
\<close>

theorem append_adds_one_line:
  assumes fit: "strlen (fst (loop_collect env w)) \<le> 31"
    and present: "\<exists>j. l_sd_begin env j"
    and opened: "l_open env"
    and prior: "log_file w = Some (CSV_HEADER # ds)"
    and count: "length ds = N"
  shows "\<exists>w'. loop env w = Some (Inr w')
      \<and> log_file w' = Some (CSV_HEADER # ds @ [c_chars (fst (loop_collect env w))])
      \<and> length (ds @ [c_chars (fst (loop_collect env w))]) = N + 1
      \<and> filter file_op (since w w') =
          [Sd SdOpen, Sd (SdPrintln (c_chars (fst (loop_collect env w)))), Sd SdClose]
      \<and> \<not> datalog w'"
proof -
  from present obtain j where "l_sd_begin env (0 + j)" by auto
  from first_answer [of "l_sd_begin env" 0 j, OF this] obtain n
    where before: "\<forall>i<n. \<not> l_sd_begin env i" and found: "l_sd_begin env n"
    by auto
  show ?thesis
    using opened prior count
    by (simp add: loop_returns [OF fit before found] since_def serial_println_def
        filter_concat_replicate)
qed

theorem append_adds_one_line_witness:
  "\<exists>w'. loop sample logging = Some (Inr w')
      \<and> log_file w' = Some [CSV_HEADER, ''2024-4-8 3:7:5,25.31,24.90'', ''2024-4-8 3:8:5,25.35,24.90'',
            ''2024-4-8 3:9:5,25.37,24.91'']"
proof -
  have p: "\<exists>j. l_sd_begin sample j" by (rule exI [of _ 2]) (simp add: sample_def)
  have o: "l_open sample" by (simp add: sample_def)
  have f: "log_file logging =
      Some (CSV_HEADER # [''2024-4-8 3:7:5,25.31,24.90'', ''2024-4-8 3:8:5,25.35,24.90''])"
    by (simp add: logging_def)
  have c: "length [''2024-4-8 3:7:5,25.31,24.90'', ''2024-4-8 3:8:5,25.35,24.90''] = 2" by simp
  show ?thesis
    using append_adds_one_line [OF sample_fits p o f c] by (auto simp: sample_line)
qed

text \<open>
  C4, as amended. An iteration whose record fits the buffer, that finds the medium and
  whose open fails returns; after the open it prints the diagnostic, writes the
  indicator on, off, on, off with a wait of 200 ms after each of the first three
  writes, closes the handle and waits 60 s. No other write to the indicator happens in
  the iteration, so it makes two pulses and ends off; the file is unchanged and no line
  is printed to it.
\<close>

theorem open_failure_blinks_twice:
  assumes fit: "strlen (fst (loop_collect env w)) \<le> 31"
    and present: "\<exists>j. l_sd_begin env j"
    and refused: "\<not> l_open env"
  shows "\<exists>w' pre. loop env w = Some (Inr w')
      \<and> since w w' = pre @ [Sd SdOpen, Println ''Could not open datalog.csv!'',
           DigitalWrite LED True, Delay 200, DigitalWrite LED False, Delay 200,
           DigitalWrite LED True, Delay 200, DigitalWrite LED False, Sd SdClose, Delay 60000]
      \<and> led_levels pre = []
      \<and> pulses (led_levels (since w w')) = 2
      \<and> \<not> led w'
      \<and> log_file w' = log_file w
      \<and> filter file_op (since w w') = [Sd SdOpen, Sd SdClose]"
proof -
  from present obtain j where "l_sd_begin env (0 + j)" by auto
  from first_answer [of "l_sd_begin env" 0 j, OF this] obtain n
    where before: "\<forall>i<n. \<not> l_sd_begin env i" and found: "l_sd_begin env n"
    by auto
  let ?line = "c_chars (fst (loop_collect env w))"
  let ?pre = "[Rtc GetYear, Rtc GetMonth, Rtc GetDate, Rtc GetHour, Rtc GetMinute, Rtc GetSecond,
       Mlx ReadAmbientTempC, Mlx ReadObjectTempC, Println ?line] @
       concat (replicate n [Sd SdBegin, Println ''No uSD card detected!'', Delay 1000]) @ [Sd SdBegin]"
  let ?w' = "loop_log False ?line (emit (Sd SdBegin) ((retry ^^ n)
          (serial_println ?line (snd (loop_collect env w)))))"
  have ret: "loop env w = Some (Inr ?w')"
    using loop_returns [OF fit before found] refused by simp
  have tr: "since w ?w' = ?pre @ [Sd SdOpen, Println ''Could not open datalog.csv!'',
           DigitalWrite LED True, Delay 200, DigitalWrite LED False, Delay 200,
           DigitalWrite LED True, Delay 200, DigitalWrite LED False, Sd SdClose, Delay 60000]"
    by (simp add: since_def serial_println_def)
  have pre: "led_levels ?pre = []"
    by simp
  have "pulses (led_levels (since w ?w')) = 2"
    unfolding tr by simp
  moreover have "filter file_op (since w ?w') = [Sd SdOpen, Sd SdClose]"
    unfolding tr by (simp add: filter_concat_replicate)
  ultimately show ?thesis
    using ret tr pre by (intro exI [of _ ?w'] exI [of _ ?pre]) (simp add: serial_println_def)
qed

theorem open_failure_blinks_twice_witness:
  "\<exists>w'. loop refused logging = Some (Inr w') \<and> pulses (led_levels (since logging w')) = 2
      \<and> log_file w' = log_file logging"
proof -
  have f: "strlen (fst (loop_collect refused logging)) \<le> 31"
    by (simp add: refused_collect sample_fits)
  have p: "\<exists>j. l_sd_begin refused j" by (rule exI [of _ 2]) (simp add: refused_def sample_def)
  have o: "\<not> l_open refused" by (simp add: refused_def)
  show ?thesis using open_failure_blinks_twice [OF f p o] by blast
qed

text \<open>
  C4, as stated, fails: with the sample readings and an open that fails, the iteration
  returns having made two pulses, not three.
\<close>

theorem three_pulses_counterexample:
  "blink_count (loop refused logging) = Some (Inr 2)
   \<and> blink_count (loop refused logging) \<noteq> Some (Inr 3)"
proof -
  have f: "strlen (fst (loop_collect refused logging)) \<le> 31"
    by (simp add: refused_collect sample_fits)
  have b: "\<forall>j<2. \<not> l_sd_begin refused j" by (simp add: refused_def sample_def)
  have n: "l_sd_begin refused 2" by (simp add: refused_def sample_def)
  show ?thesis
    unfolding blink_count_def loop_returns [OF f b n]
    by (simp add: refused_def logging_def serial_println_def LED_def)
qed

text \<open>
  C6. In an iteration whose record fits the buffer: if the medium is found at call
  number n of \<open>SD.begin\<close> after n failed calls, for any n, the iteration returns;
  after the readings and the printed record its events are n rounds of a failed call,
  the diagnostic and a wait of one second, then the successful call and the open; when
  the open succeeds the record is appended, and the run goes on with the next
  iteration. If no call ever succeeds the iteration never returns. The iteration
  returns exactly when some call succeeds.
\<close>

theorem medium_wait_unbounded:
  assumes fit: "strlen (fst (loop_collect env w)) \<le> 31"
  shows "(\<forall>n. (\<forall>j<n. \<not> l_sd_begin env j) \<and> l_sd_begin env n \<longrightarrow>
            (\<exists>w' rest. loop env w = Some (Inr w')
               \<and> since w w' =
                   [Rtc GetYear, Rtc GetMonth, Rtc GetDate, Rtc GetHour, Rtc GetMinute,
                    Rtc GetSecond, Mlx ReadAmbientTempC, Mlx ReadObjectTempC,
                    Println (c_chars (fst (loop_collect env w)))] @
                   concat (replicate n [Sd SdBegin, Println ''No uSD card detected!'', Delay 1000]) @
                   [Sd SdBegin, Sd SdOpen] @ rest
               \<and> (l_open env \<longrightarrow> log_file w' =
                     Some ((case log_file w of None \<Rightarrow> [] | Some ls \<Rightarrow> ls) @
                           [c_chars (fst (loop_collect env w))]))
               \<and> (\<forall>es. iterate (env # es) w = iterate es w')))
       \<and> ((\<forall>j. \<not> l_sd_begin env j) \<longrightarrow>
            loop env w = None \<and> (\<forall>es. iterate (env # es) w = Blocked))
       \<and> ((\<exists>w'. loop env w = Some (Inr w')) \<longleftrightarrow> (\<exists>j. l_sd_begin env j))"
proof -
  let ?line = "c_chars (fst (loop_collect env w))"
  have found: "\<exists>w' rest. loop env w = Some (Inr w')
               \<and> since w w' =
                   [Rtc GetYear, Rtc GetMonth, Rtc GetDate, Rtc GetHour, Rtc GetMinute,
                    Rtc GetSecond, Mlx ReadAmbientTempC, Mlx ReadObjectTempC, Println ?line] @
                   concat (replicate n [Sd SdBegin, Println ''No uSD card detected!'', Delay 1000]) @
                   [Sd SdBegin, Sd SdOpen] @ rest
               \<and> (l_open env \<longrightarrow> log_file w' =
                     Some ((case log_file w of None \<Rightarrow> [] | Some ls \<Rightarrow> ls) @ [?line]))
               \<and> (\<forall>es. iterate (env # es) w = iterate es w')"
    if "(\<forall>j<n. \<not> l_sd_begin env j) \<and> l_sd_begin env n" for n
  proof -
    from that have before: "\<forall>j<n. \<not> l_sd_begin env j" and found: "l_sd_begin env n"
      by simp_all
    show ?thesis
      by (cases "l_open env")
        (simp_all add: loop_returns [OF fit before found] since_def serial_println_def)
  qed
  have never: "loop env w = None \<and> (\<forall>es. iterate (env # es) w = Blocked)"
    if "\<forall>j. \<not> l_sd_begin env j"
    using loop_blocked [OF fit that] by simp
  have reach: "(\<exists>w'. loop env w = Some (Inr w')) \<longleftrightarrow> (\<exists>j. l_sd_begin env j)"
  proof
    assume "\<exists>w'. loop env w = Some (Inr w')"
    then show "\<exists>j. l_sd_begin env j" using loop_Inr_D by blast
  next
    assume "\<exists>j. l_sd_begin env j"
    then obtain j where "l_sd_begin env (0 + j)" by auto
    from first_answer [of "l_sd_begin env" 0 j, OF this] obtain n
      where "\<forall>i<n. \<not> l_sd_begin env i" and "l_sd_begin env n"
      by auto
    then show "\<exists>w'. loop env w = Some (Inr w')"
      using loop_returns [OF fit] by blast
  qed
  show ?thesis
    using found never reach by blast
qed

theorem medium_wait_unbounded_witness:
  "(\<exists>w' rest. loop sample logging = Some (Inr w')
     \<and> since logging w' =
         [Rtc GetYear, Rtc GetMonth, Rtc GetDate, Rtc GetHour, Rtc GetMinute, Rtc GetSecond,
          Mlx ReadAmbientTempC, Mlx ReadObjectTempC, Println ''2024-4-8 3:9:5,25.37,24.91'',
          Sd SdBegin, Println ''No uSD card detected!'', Delay 1000,
          Sd SdBegin, Println ''No uSD card detected!'', Delay 1000,
          Sd SdBegin, Sd SdOpen] @ rest)
   \<and> loop absent logging = None"
proof -
  have b: "(\<forall>j<2. \<not> l_sd_begin sample j) \<and> l_sd_begin sample 2" by (simp add: sample_def)
  have "\<exists>w' rest. loop sample logging = Some (Inr w')
     \<and> since logging w' =
         [Rtc GetYear, Rtc GetMonth, Rtc GetDate, Rtc GetHour, Rtc GetMinute, Rtc GetSecond,
          Mlx ReadAmbientTempC, Mlx ReadObjectTempC,
          Println (c_chars (fst (loop_collect sample logging)))] @
         concat (replicate 2 [Sd SdBegin, Println ''No uSD card detected!'', Delay 1000]) @
         [Sd SdBegin, Sd SdOpen] @ rest"
    using medium_wait_unbounded [OF sample_fits [of logging]] b by blast
  then have found: "\<exists>w' rest. loop sample logging = Some (Inr w')
     \<and> since logging w' =
         [Rtc GetYear, Rtc GetMonth, Rtc GetDate, Rtc GetHour, Rtc GetMinute, Rtc GetSecond,
          Mlx ReadAmbientTempC, Mlx ReadObjectTempC, Println ''2024-4-8 3:9:5,25.37,24.91'',
          Sd SdBegin, Println ''No uSD card detected!'', Delay 1000,
          Sd SdBegin, Println ''No uSD card detected!'', Delay 1000,
          Sd SdBegin, Sd SdOpen] @ rest"
    by (simp add: sample_line numeral_2_eq_2)
  have f: "strlen (fst (loop_collect absent logging)) \<le> 31"
    by (simp add: absent_collect sample_fits)
  have n: "\<forall>j. \<not> l_sd_begin absent j" by (simp add: absent_def)
  have "loop absent logging = None"
    using medium_wait_unbounded [OF f] n by blast
  then show ?thesis using found by blast
qed

text \<open>
  C7. An iteration whose record fits the buffer, that finds the medium and whose open
  fails returns with the file unchanged; it makes one open and prints no line to the
  file, writes the indicator on, off, on, off, ends with the wait of 60 s, and the run
  goes on with the next iteration.
\<close>

theorem open_failure_drops_reading:
  assumes fit: "strlen (fst (loop_collect env w)) \<le> 31"
    and present: "\<exists>j. l_sd_begin env j"
    and refused: "\<not> l_open env"
  shows "\<exists>w'. loop env w = Some (Inr w')
      \<and> log_file w' = log_file w
      \<and> length (filter (\<lambda>e. e = Sd SdOpen) (since w w')) = 1
      \<and> (\<forall>s. Sd (SdPrintln s) \<notin> set (since w w'))
      \<and> led_levels (since w w') = [True, False, True, False]
      \<and> last (trace w') = Delay 60000
      \<and> (\<forall>es. iterate (env # es) w = iterate es w')"
proof -
  from present obtain j where "l_sd_begin env (0 + j)" by auto
  from first_answer [of "l_sd_begin env" 0 j, OF this] obtain n
    where before: "\<forall>i<n. \<not> l_sd_begin env i" and found: "l_sd_begin env n"
    by auto
  have retries: "Sd (SdPrintln s) \<notin> set (concat (replicate n
      [Sd SdBegin, Println ''No uSD card detected!'', Delay 1000]))" for s
    by (induction n) simp_all
  show ?thesis
    using refused retries
    by (simp add: loop_returns [OF fit before found] since_def serial_println_def
        filter_concat_replicate)
qed

theorem open_failure_drops_reading_witness:
  "\<exists>w'. loop refused logging = Some (Inr w') \<and> log_file w' = log_file logging
      \<and> iterate [refused] logging = Running w'"
proof -
  have f: "strlen (fst (loop_collect refused logging)) \<le> 31"
    by (simp add: refused_collect sample_fits)
  have p: "\<exists>j. l_sd_begin refused j" by (rule exI [of _ 2]) (simp add: refused_def sample_def)
  have o: "\<not> l_open refused" by (simp add: refused_def)
  show ?thesis using open_failure_drops_reading [OF f p o] by auto
qed

section \<open>The record buffer\<close>

text \<open>
  C9. The copy of the record into the 32-byte array stays inside the array exactly
  when the record, read as a C string, has at most 31 characters; the array then reads
  back as the record. With at most 31 characters the iteration never leaves defined
  behaviour: it returns as soon as the medium is found, having printed the record and,
  when the open succeeds, appended it as the last line of the file, and it waits for
  ever when the medium is never found. With more than 31 characters the copy writes
  outside the array, and that is the only way the iteration faults. When the two
  temperature texts hold no zero byte, the C string is the whole record and its length
  is the record's length.
\<close>

theorem record_copy_bounds:
  "(let data = fst (loop_collect env w) in
     ((\<exists>buf. strcpy data_str0 0 (c_str data) = Inr buf) \<longleftrightarrow> strlen data \<le> 31)
   \<and> (\<forall>buf. strcpy data_str0 0 (c_str data) = Inr buf \<longrightarrow>
         length buf = 32 \<and> read_c_string buf = Inr (c_chars data))
   \<and> (31 < strlen data \<longrightarrow>
         strcpy data_str0 0 (c_str data) = Inl Buffer_overrun
         \<and> loop env w = Some (Inl Buffer_overrun))
   \<and> (strlen data \<le> 31 \<longrightarrow> (\<forall>f. loop env w \<noteq> Some (Inl f)))
   \<and> ((\<exists>f. loop env w = Some (Inl f)) \<longleftrightarrow> 31 < strlen data)
   \<and> (strlen data \<le> 31 \<and> (\<exists>j. l_sd_begin env j) \<longrightarrow>
         (\<exists>w'. loop env w = Some (Inr w')
            \<and> Println (c_chars data) \<in> set (since w w')
            \<and> (l_open env \<longrightarrow>
                  Sd (SdPrintln (c_chars data)) \<in> set (since w w')
                  \<and> log_file w' =
                      Some ((case log_file w of None \<Rightarrow> [] | Some ls \<Rightarrow> ls) @ [c_chars data]))))
   \<and> (strlen data \<le> 31 \<and> (\<forall>j. \<not> l_sd_begin env j) \<longrightarrow> loop env w = None)
   \<and> (\<forall>w'. loop env w = Some (Inr w') \<longrightarrow>
         Println (c_chars data) \<in> set (since w w')
         \<and> (l_open env \<longrightarrow> Sd (SdPrintln (c_chars data)) \<in> set (since w w')))
   \<and> (NUL \<notin> set (object_text (l_mlx env)) \<and> NUL \<notin> set (ambient_text (l_mlx env)) \<longrightarrow>
         strlen data = length data \<and> c_chars data = data))"
proof -
  let ?data = "fst (loop_collect env w)"
  have a: "(\<exists>buf. strcpy data_str0 0 (c_str ?data) = Inr buf) \<longleftrightarrow> strlen ?data \<le> 31"
    by (cases "strlen ?data \<le> 31") (simp_all add: copy_fits copy_overruns)
  have b: "length buf = 32 \<and> read_c_string buf = Inr (c_chars ?data)"
    if "strcpy data_str0 0 (c_str ?data) = Inr buf" for buf
  proof -
    have fit: "strlen ?data \<le> 31" using a that by blast
    have len: "length (c_chars ?data) = strlen ?data" by (simp add: strlen_def)
    from that have "buf = c_chars ?data @ NUL # replicate (31 - strlen ?data) NUL"
      by (simp add: copy_fits [OF fit])
    then show ?thesis using fit len by (simp add: read_back)
  qed
  have c: "strcpy data_str0 0 (c_str ?data) = Inl Buffer_overrun
         \<and> loop env w = Some (Inl Buffer_overrun)" if "31 < strlen ?data"
    using that by (simp add: copy_overruns loop_crashes)
  have d: "Println (c_chars ?data) \<in> set (since w w')
         \<and> (l_open env \<longrightarrow> Sd (SdPrintln (c_chars ?data)) \<in> set (since w w')
               \<and> log_file w' =
                   Some ((case log_file w of None \<Rightarrow> [] | Some ls \<Rightarrow> ls) @ [c_chars ?data]))"
    if ret: "loop env w = Some (Inr w')" for w'
  proof -
    from loop_Inr_D [OF ret] obtain n
      where fit: "strlen ?data \<le> 31"
        and before: "\<forall>j<n. \<not> l_sd_begin env j" and found: "l_sd_begin env n"
      by blast
    have w': "w' = loop_log (l_open env) (c_chars ?data)
       (emit (Sd SdBegin) ((retry ^^ n) (serial_println (c_chars ?data) (snd (loop_collect env w)))))"
      using loop_returns [OF fit before found] ret by simp
    show ?thesis
      by (cases "l_open env") (simp_all add: w' since_def serial_println_def)
  qed
  have r: "\<exists>w'. loop env w = Some (Inr w')"
    if fit: "strlen ?data \<le> 31" and present: "\<exists>j. l_sd_begin env j"
  proof -
    from present obtain j where "l_sd_begin env (0 + j)" by auto
    from first_answer [of "l_sd_begin env" 0 j, OF this] obtain n
      where "\<forall>i<n. \<not> l_sd_begin env i" and "l_sd_begin env n"
      by auto
    then show ?thesis using loop_returns [OF fit] by blast
  qed
  have n: "loop env w = None" if "strlen ?data \<le> 31" and "\<forall>j. \<not> l_sd_begin env j"
    using that by (rule loop_blocked)
  have g: "loop env w \<noteq> Some (Inl f)" if fit: "strlen ?data \<le> 31" for f
  proof (cases "\<exists>j. l_sd_begin env j")
    case True
    then show ?thesis using r [OF fit] by auto
  next
    case False
    then show ?thesis using n [OF fit] by simp
  qed
  have h: "(\<exists>f. loop env w = Some (Inl f)) \<longleftrightarrow> 31 < strlen ?data"
  proof
    assume "\<exists>f. loop env w = Some (Inl f)"
    then show "31 < strlen ?data" using g by (cases "strlen ?data \<le> 31") auto
  next
    assume "31 < strlen ?data"
    then show "\<exists>f. loop env w = Some (Inl f)" using c by blast
  qed
  have e: "strlen ?data = length ?data \<and> c_chars ?data = ?data"
    if "NUL \<notin> set (object_text (l_mlx env)) \<and> NUL \<notin> set (ambient_text (l_mlx env))"
    using that record_no_NUL [of env w] by (simp add: strlen_def c_chars_id)
  have rd: "\<exists>w'. loop env w = Some (Inr w')
            \<and> Println (c_chars ?data) \<in> set (since w w')
            \<and> (l_open env \<longrightarrow>
                  Sd (SdPrintln (c_chars ?data)) \<in> set (since w w')
                  \<and> log_file w' =
                      Some ((case log_file w of None \<Rightarrow> [] | Some ls \<Rightarrow> ls) @ [c_chars ?data]))"
    if "strlen ?data \<le> 31 \<and> (\<exists>j. l_sd_begin env j)"
    using r d that by blast
  have nn: "loop env w = None" if "strlen ?data \<le> 31 \<and> (\<forall>j. \<not> l_sd_begin env j)"
    using n that by blast
  have gg: "\<forall>f. loop env w \<noteq> Some (Inl f)" if "strlen ?data \<le> 31"
    using g that by blast
  have dd: "Println (c_chars ?data) \<in> set (since w w')
         \<and> (l_open env \<longrightarrow> Sd (SdPrintln (c_chars ?data)) \<in> set (since w w'))"
    if "loop env w = Some (Inr w')" for w'
    using d [OF that] by blast
  show ?thesis
    unfolding Let_def
    using a b c gg h rd nn dd e by (intro conjI allI impI) blast+
qed

theorem record_copy_bounds_witness:
  "length (fst (loop_collect frost logging)) = 33
   \<and> loop frost logging = Some (Inl Buffer_overrun)
   \<and> length (fst (loop_collect sample logging)) = 26
   \<and> (\<exists>buf. strcpy data_str0 0 (c_str (fst (loop_collect sample logging))) = Inr buf
         \<and> read_c_string buf = Inr ''2024-4-8 3:9:5,25.37,24.91'')
   \<and> (\<exists>w'. loop sample logging = Some (Inr w')
         \<and> Println ''2024-4-8 3:9:5,25.37,24.91'' \<in> set (since logging w')
         \<and> Sd (SdPrintln ''2024-4-8 3:9:5,25.37,24.91'') \<in> set (since logging w')
         \<and> log_file w' =
             Some [CSV_HEADER, ''2024-4-8 3:7:5,25.31,24.90'', ''2024-4-8 3:8:5,25.35,24.90'',
               ''2024-4-8 3:9:5,25.37,24.91''])"
proof -
  have f: "31 < strlen (fst (loop_collect frost logging))" by (simp add: frost_overlong)
  have s: "strlen (fst (loop_collect sample logging)) \<le> 31" by (rule sample_fits)
  have p: "\<exists>j. l_sd_begin sample j" by (rule exI [of _ 2]) (simp add: sample_def)
  have o: "l_open sample" by (simp add: sample_def)
  have lf: "log_file logging =
      Some [CSV_HEADER, ''2024-4-8 3:7:5,25.31,24.90'', ''2024-4-8 3:8:5,25.35,24.90'']"
    by (simp add: logging_def)
  have A: "loop frost logging = Some (Inl Buffer_overrun)"
    using record_copy_bounds [of frost logging] f unfolding Let_def by blast
  have B: "\<exists>buf. strcpy data_str0 0 (c_str (fst (loop_collect sample logging))) = Inr buf
      \<and> read_c_string buf = Inr (c_chars (fst (loop_collect sample logging)))"
    using record_copy_bounds [of sample logging] s unfolding Let_def by blast
  have C: "length (fst (loop_collect frost logging)) = 33" by (simp add: frost_text)
  have D: "length (fst (loop_collect sample logging)) = 26" by (simp add: sample_text)
  have E: "\<exists>w'. loop sample logging = Some (Inr w')
         \<and> Println (c_chars (fst (loop_collect sample logging))) \<in> set (since logging w')
         \<and> Sd (SdPrintln (c_chars (fst (loop_collect sample logging)))) \<in> set (since logging w')
         \<and> log_file w' =
             Some ((case log_file logging of None \<Rightarrow> [] | Some ls \<Rightarrow> ls) @
                   [c_chars (fst (loop_collect sample logging))])"
    using record_copy_bounds [of sample logging] s p o unfolding Let_def by blast
  show ?thesis using A B C D E by (simp add: sample_line lf)
qed

section \<open>Reads and writes of the peripherals\<close>

text \<open>
  C10. No call that main.ino makes in setup or in an iteration of loop writes to the
  clock or the thermometer; the calls of calibrate.ino that write are the seven clock
  setters and the emissivity write.
\<close>

theorem peripherals_only_read:
  "filter modifies (since w (world_of (main_setup env w))) = []
   \<and> (\<forall>w'. loop lenv w = Some (Inr w') \<longrightarrow> filter modifies (since w w') = [])
   \<and> filter modifies (since w (calibrate_setup w)) =
       [Rtc (SetClockMode False), Rtc (SetYear 24), Rtc (SetMonth 4), Rtc (SetDate 8),
        Rtc (SetHour 3), Rtc (SetMinute 9), Rtc (SetSecond 5), Mlx (WriteEmissivity 0.95)]"
proof (intro conjI allI impI)
  show "filter modifies (since w (world_of (main_setup env w))) = []"
    by (cases "temperature (s_rtc env) \<le> - 9999"; cases "begin_ok (s_mlx env)";
        cases "s_sd_begin env"; cases "log_file w"; cases "s_open_header env";
        cases "s_open_check env")
      (simp_all add: setup_defs wrap_defs since_def)
next
  fix w'
  assume ret: "loop lenv w = Some (Inr w')"
  from loop_Inr_D [OF ret] obtain n
    where fit: "strlen (fst (loop_collect lenv w)) \<le> 31"
      and before: "\<forall>j<n. \<not> l_sd_begin lenv j" and found: "l_sd_begin lenv n"
    by blast
  have w': "w' = loop_log (l_open lenv) (c_chars (fst (loop_collect lenv w)))
       (emit (Sd SdBegin) ((retry ^^ n)
          (serial_println (c_chars (fst (loop_collect lenv w))) (snd (loop_collect lenv w)))))"
    using loop_returns [OF fit before found] ret by simp
  show "filter modifies (since w w') = []"
    by (cases "l_open lenv")
      (simp_all add: w' since_def serial_println_def filter_concat_replicate)
next
  show "filter modifies (since w (calibrate_setup w)) =
       [Rtc (SetClockMode False), Rtc (SetYear 24), Rtc (SetMonth 4), Rtc (SetDate 8),
        Rtc (SetHour 3), Rtc (SetMinute 9), Rtc (SetSecond 5), Mlx (WriteEmissivity 0.95)]"
    by (simp add: calibrate_setup_def Let_def wrap_defs since_def)
qed

theorem peripherals_only_read_witness:
  "\<exists>w'. loop sample logging = Some (Inr w') \<and> filter modifies (since logging w') = []"
proof -
  have b: "\<forall>j<2. \<not> l_sd_begin sample j" by (simp add: sample_def)
  have n: "l_sd_begin sample 2" by (simp add: sample_def)
  obtain w' where r: "loop sample logging = Some (Inr w')"
    using loop_returns [OF sample_fits b n] by blast
  then show ?thesis
    using peripherals_only_read [of logging healthy sample] by blast
qed

end
